theory Spec2Isabelle
  imports Complex_Main
begin

section \<open>Floats\<close>

text \<open>
  A Python \<open>float\<close> and a numpy \<open>float64\<close> are IEEE 754 doubles: a finite value,
  an infinity or \<open>nan\<close>. The two zeros \<open>0.0\<close> and \<open>-0.0\<close> compare equal and are the one
  value \<open>Finite 0\<close>. Rounding to the nearest double is the parameter \<open>rnd\<close> of every
  function that computes: nothing is assumed of it, so what is proved holds for the
  rounding of the machine. An operation overflows to an infinity when the magnitude of
  its exact result reaches \<open>overflow_bound\<close>, half a unit in the last place above the
  largest double.
\<close>

datatype float64 = Finite real | PosInf | NegInf | NaN

definition overflow_bound :: real where
  "overflow_bound = 2 ^ 1024 - 2 ^ 970"

definition fl :: "(real \<Rightarrow> real) \<Rightarrow> real \<Rightarrow> float64" where
  "fl rnd r =
     (if overflow_bound \<le> \<bar>r\<bar> then (if 0 < r then PosInf else NegInf)
      else Finite (rnd r))"

fun is_nan :: "float64 \<Rightarrow> bool" where
  "is_nan NaN = True"
| "is_nan x = False"

fun is_inf :: "float64 \<Rightarrow> bool" where
  "is_inf PosInf = True"
| "is_inf NegInf = True"
| "is_inf x = False"

fun is_zero :: "float64 \<Rightarrow> bool" where
  "is_zero (Finite r) = (r = 0)"
| "is_zero x = False"

fun val :: "float64 \<Rightarrow> real" where
  "val (Finite r) = r"
| "val x = 0"

text \<open>The sign of a value that is not \<open>nan\<close>; a zero counts as positive.\<close>

fun positive :: "float64 \<Rightarrow> bool" where
  "positive (Finite r) = (0 \<le> r)"
| "positive PosInf = True"
| "positive NegInf = False"
| "positive NaN = True"

definition inf_of :: "bool \<Rightarrow> float64" where
  "inf_of pos = (if pos then PosInf else NegInf)"

fun fneg :: "float64 \<Rightarrow> float64" where
  "fneg (Finite r) = Finite (- r)"
| "fneg PosInf = NegInf"
| "fneg NegInf = PosInf"
| "fneg NaN = NaN"

fun fabs :: "float64 \<Rightarrow> float64" where
  "fabs (Finite r) = Finite \<bar>r\<bar>"
| "fabs PosInf = PosInf"
| "fabs NegInf = PosInf"
| "fabs NaN = NaN"

definition fadd :: "(real \<Rightarrow> real) \<Rightarrow> float64 \<Rightarrow> float64 \<Rightarrow> float64" where
  "fadd rnd x y =
     (if is_nan x \<or> is_nan y then NaN
      else if is_inf x then (if is_inf y \<and> x \<noteq> y then NaN else x)
      else if is_inf y then y
      else fl rnd (val x + val y))"

definition fsub :: "(real \<Rightarrow> real) \<Rightarrow> float64 \<Rightarrow> float64 \<Rightarrow> float64" where
  "fsub rnd x y = fadd rnd x (fneg y)"

definition fmul :: "(real \<Rightarrow> real) \<Rightarrow> float64 \<Rightarrow> float64 \<Rightarrow> float64" where
  "fmul rnd x y =
     (if is_nan x \<or> is_nan y then NaN
      else if is_inf x \<or> is_inf y
           then (if is_zero x \<or> is_zero y then NaN else inf_of (positive x = positive y))
      else fl rnd (val x * val y))"

text \<open>In a division by a zero the divisor counts as \<open>0.0\<close>, so the sign of an
  infinite quotient is that of the dividend. The package tests every divisor against
  zero before it divides.\<close>

definition fdiv :: "(real \<Rightarrow> real) \<Rightarrow> float64 \<Rightarrow> float64 \<Rightarrow> float64" where
  "fdiv rnd x y =
     (if is_nan x \<or> is_nan y then NaN
      else if is_inf x then (if is_inf y then NaN else inf_of (positive x = positive y))
      else if is_inf y then Finite 0
      else if is_zero y then (if is_zero x then NaN else inf_of (positive x))
      else fl rnd (val x / val y))"

fun fsqrt :: "(real \<Rightarrow> real) \<Rightarrow> float64 \<Rightarrow> float64" where
  "fsqrt rnd (Finite r) = (if r < 0 then NaN else fl rnd (sqrt r))"
| "fsqrt rnd PosInf = PosInf"
| "fsqrt rnd NegInf = NaN"
| "fsqrt rnd NaN = NaN"

text \<open>The comparisons \<open>==\<close> and \<open><\<close>: false as soon as one side is \<open>nan\<close>.\<close>

definition feq :: "float64 \<Rightarrow> float64 \<Rightarrow> bool" where
  "feq x y = (\<not> is_nan x \<and> \<not> is_nan y \<and> x = y)"

fun flt :: "float64 \<Rightarrow> float64 \<Rightarrow> bool" where
  "flt (Finite a) (Finite b) = (a < b)"
| "flt (Finite a) PosInf = True"
| "flt NegInf (Finite b) = True"
| "flt NegInf PosInf = True"
| "flt x y = False"

section \<open>Numbers and failures\<close>

text \<open>
  The package works on Python numbers: \<open>Number = Union[int, float]\<close>. An \<open>int\<close> is an
  unbounded integer.

  \<open>ValueError msg\<close> is the only exception the package raises itself.
  \<open>ZeroDivisionError\<close> is what Python's \<open>/\<close> raises on a zero divisor and
  \<open>OverflowError\<close> what Python and numpy raise for an int too large for a float.
  \<open>Unmodelled\<close> is no exception: it marks the lists for which what \<open>np.array(data)\<close>
  builds is not described here, those holding an int outside the 64-bit range.
\<close>

datatype number = PyInt int | PyFloat float64


datatype failure = ValueError string | ZeroDivisionError | OverflowError | Unmodelled

type_synonym 'a result = "failure + 'a"

fun returned :: "'a result \<Rightarrow> bool" where
  "returned (Inr v) = True"
| "returned (Inl e) = False"

definition bind_result :: "'a result \<Rightarrow> ('a \<Rightarrow> 'b result) \<Rightarrow> 'b result" where
  "bind_result r f = (case r of Inl e \<Rightarrow> Inl e | Inr v \<Rightarrow> f v)"

text \<open>The conversion of a number to a float: an int is rounded, and raises when it is
  too large.\<close>

definition float_of_int :: "(real \<Rightarrow> real) \<Rightarrow> int \<Rightarrow> float64 result" where
  "float_of_int rnd i =
     (if overflow_bound \<le> \<bar>real_of_int i\<bar> then Inl OverflowError
      else Inr (Finite (rnd (real_of_int i))))"

fun to_float :: "(real \<Rightarrow> real) \<Rightarrow> number \<Rightarrow> float64 result" where
  "to_float rnd (PyInt i) = float_of_int rnd i"
| "to_float rnd (PyFloat x) = Inr x"

text \<open>Python's arithmetic on numbers: two ints give an int, exactly; otherwise both
  operands are converted to floats. True division always gives a float: of two ints the
  rounded quotient, which raises when it is too large for a float.\<close>

fun py_add :: "(real \<Rightarrow> real) \<Rightarrow> number \<Rightarrow> number \<Rightarrow> number result" where
  "py_add rnd (PyInt a) (PyInt b) = Inr (PyInt (a + b))"
| "py_add rnd a b =
     bind_result (to_float rnd a) (\<lambda>x.
     bind_result (to_float rnd b) (\<lambda>y. Inr (PyFloat (fadd rnd x y))))"

fun py_sub :: "(real \<Rightarrow> real) \<Rightarrow> number \<Rightarrow> number \<Rightarrow> number result" where
  "py_sub rnd (PyInt a) (PyInt b) = Inr (PyInt (a - b))"
| "py_sub rnd a b =
     bind_result (to_float rnd a) (\<lambda>x.
     bind_result (to_float rnd b) (\<lambda>y. Inr (PyFloat (fsub rnd x y))))"

fun py_mul :: "(real \<Rightarrow> real) \<Rightarrow> number \<Rightarrow> number \<Rightarrow> number result" where
  "py_mul rnd (PyInt a) (PyInt b) = Inr (PyInt (a * b))"
| "py_mul rnd a b =
     bind_result (to_float rnd a) (\<lambda>x.
     bind_result (to_float rnd b) (\<lambda>y. Inr (PyFloat (fmul rnd x y))))"

fun py_truediv :: "(real \<Rightarrow> real) \<Rightarrow> number \<Rightarrow> number \<Rightarrow> number result" where
  "py_truediv rnd (PyInt a) (PyInt b) =
     (if b = 0 then Inl ZeroDivisionError
      else if overflow_bound \<le> \<bar>real_of_int a / real_of_int b\<bar> then Inl OverflowError
      else Inr (PyFloat (Finite (rnd (real_of_int a / real_of_int b)))))"
| "py_truediv rnd a b =
     bind_result (to_float rnd a) (\<lambda>x.
     bind_result (to_float rnd b) (\<lambda>y.
       if is_zero y then Inl ZeroDivisionError else Inr (PyFloat (fdiv rnd x y))))"

text \<open>\<open>b == 0\<close> compares by value: it holds for the int \<open>0\<close> and for the floats \<open>0.0\<close>
  and \<open>-0.0\<close>, and for nothing else.\<close>

fun py_eq_zero :: "number \<Rightarrow> bool" where
  "py_eq_zero (PyInt i) = (i = 0)"
| "py_eq_zero (PyFloat x) = is_zero x"

section \<open>Calculator\<close>

text \<open>
  The object's only attribute is \<open>history\<close>. A method takes the object and returns it
  updated, together with the value returned or the exception raised. The conversion of a
  number to text inside an f-string is Python's built-in \<open>str\<close>; it is the parameter
  \<open>str\<close> of every method that formats an entry. It can raise, as \<open>str\<close> does for an
  int of more digits than the interpreter's limit, and \<open>f_string\<close> is the f-string
  \<open>f"{a} op {b} = {result}"\<close>, which converts its three numbers in this order.
\<close>

record Calculator =
  history :: "string list"

definition f_string ::
  "(number \<Rightarrow> string result) \<Rightarrow> number \<Rightarrow> string \<Rightarrow> number \<Rightarrow> number \<Rightarrow> string result" where
  "f_string str a opr b result =
     bind_result (str a) (\<lambda>sa.
     bind_result (str b) (\<lambda>sb.
     bind_result (str result) (\<lambda>sr. Inr (sa @ opr @ sb @ '' = '' @ sr))))"

definition init :: Calculator where
  "init = \<lparr>history = []\<rparr>"

definition add ::
  "(real \<Rightarrow> real) \<Rightarrow> (number \<Rightarrow> string result) \<Rightarrow> Calculator \<Rightarrow> number \<Rightarrow> number \<Rightarrow> Calculator \<times> number result" where
  "add rnd str self a b =
     (case py_add rnd a b of
        Inl e \<Rightarrow> (self, Inl e)
      | Inr result \<Rightarrow>
          (case f_string str a '' + '' b result of
             Inl e \<Rightarrow> (self, Inl e)
           | Inr entry \<Rightarrow> (self\<lparr>history := history self @ [entry]\<rparr>, Inr result)))"

definition subtract ::
  "(real \<Rightarrow> real) \<Rightarrow> (number \<Rightarrow> string result) \<Rightarrow> Calculator \<Rightarrow> number \<Rightarrow> number \<Rightarrow> Calculator \<times> number result" where
  "subtract rnd str self a b =
     (case py_sub rnd a b of
        Inl e \<Rightarrow> (self, Inl e)
      | Inr result \<Rightarrow>
          (case f_string str a '' - '' b result of
             Inl e \<Rightarrow> (self, Inl e)
           | Inr entry \<Rightarrow> (self\<lparr>history := history self @ [entry]\<rparr>, Inr result)))"

definition multiply ::
  "(real \<Rightarrow> real) \<Rightarrow> (number \<Rightarrow> string result) \<Rightarrow> Calculator \<Rightarrow> number \<Rightarrow> number \<Rightarrow> Calculator \<times> number result" where
  "multiply rnd str self a b =
     (case py_mul rnd a b of
        Inl e \<Rightarrow> (self, Inl e)
      | Inr result \<Rightarrow>
          (case f_string str a '' * '' b result of
             Inl e \<Rightarrow> (self, Inl e)
           | Inr entry \<Rightarrow> (self\<lparr>history := history self @ [entry]\<rparr>, Inr result)))"

definition divide_calc ::
  "(real \<Rightarrow> real) \<Rightarrow> (number \<Rightarrow> string result) \<Rightarrow> Calculator \<Rightarrow> number \<Rightarrow> number \<Rightarrow> Calculator \<times> number result" where
  "divide_calc rnd str self a b =
     (if py_eq_zero b then (self, Inl (ValueError ''Cannot divide by zero''))
      else (case py_truediv rnd a b of
              Inl e \<Rightarrow> (self, Inl e)
            | Inr result \<Rightarrow>
                (case f_string str a '' / '' b result of
                   Inl e \<Rightarrow> (self, Inl e)
                 | Inr entry \<Rightarrow> (self\<lparr>history := history self @ [entry]\<rparr>, Inr result))))"

definition get_history :: "Calculator \<Rightarrow> Calculator \<times> string list" where
  "get_history self = (self, history self)"

definition clear_history :: "Calculator \<Rightarrow> Calculator" where
  "clear_history self = self\<lparr>history := []\<rparr>"

text \<open>
  A caller's use of one calculator is a list of calls. A call that raises leaves the
  object to the caller, who goes on with it; \<open>run\<close> returns the object after the last
  call and what each call gave.
\<close>

datatype call =
    Add number number
  | Subtract number number
  | Multiply number number
  | Divide number number
  | GetHistory
  | ClearHistory

datatype reply = Num number | Hist "string list" | NoValue

fun step :: "(real \<Rightarrow> real) \<Rightarrow> (number \<Rightarrow> string result) \<Rightarrow> Calculator \<Rightarrow> call \<Rightarrow> Calculator \<times> reply result" where
  "step rnd str s (Add a b) = (let (s', r) = add rnd str s a b in (s', map_sum id Num r))"
| "step rnd str s (Subtract a b) = (let (s', r) = subtract rnd str s a b in (s', map_sum id Num r))"
| "step rnd str s (Multiply a b) = (let (s', r) = multiply rnd str s a b in (s', map_sum id Num r))"
| "step rnd str s (Divide a b) = (let (s', r) = divide_calc rnd str s a b in (s', map_sum id Num r))"
| "step rnd str s GetHistory = (let (s', h) = get_history s in (s', Inr (Hist h)))"
| "step rnd str s ClearHistory = (clear_history s, Inr NoValue)"

fun run :: "(real \<Rightarrow> real) \<Rightarrow> (number \<Rightarrow> string result) \<Rightarrow> Calculator \<Rightarrow> call list \<Rightarrow> Calculator \<times> reply result list" where
  "run rnd str s [] = (s, [])"
| "run rnd str s (c # cs) =
     (let (s', r) = step rnd str s c;
          (s'', rs) = run rnd str s' cs
      in (s'', r # rs))"

text \<open>The words of the history invariant, stated on a list of calls paired with what
  each gave: an arithmetic call is one of the four operations, it is successful when it
  returned, and the calls that count are those after the last \<open>clear_history\<close>.\<close>

fun is_arith :: "call \<Rightarrow> bool" where
  "is_arith (Add a b) = True"
| "is_arith (Subtract a b) = True"
| "is_arith (Multiply a b) = True"
| "is_arith (Divide a b) = True"
| "is_arith GetHistory = False"
| "is_arith ClearHistory = False"

definition successful :: "call \<times> reply result \<Rightarrow> bool" where
  "successful cr = (is_arith (fst cr) \<and> returned (snd cr))"

definition since_last_clear :: "(call \<times> 'a) list \<Rightarrow> (call \<times> 'a) list" where
  "since_last_clear crs = rev (takeWhile (\<lambda>cr. fst cr \<noteq> ClearHistory) (rev crs))"

fun symbol :: "call \<Rightarrow> string" where
  "symbol (Add a b) = '' + ''"
| "symbol (Subtract a b) = '' - ''"
| "symbol (Multiply a b) = '' * ''"
| "symbol (Divide a b) = '' / ''"
| "symbol GetHistory = []"
| "symbol ClearHistory = []"

fun operands :: "call \<Rightarrow> (number \<times> number) option" where
  "operands (Add a b) = Some (a, b)"
| "operands (Subtract a b) = Some (a, b)"
| "operands (Multiply a b) = Some (a, b)"
| "operands (Divide a b) = Some (a, b)"
| "operands GetHistory = None"
| "operands ClearHistory = None"

fun entry_of :: "(number \<Rightarrow> string result) \<Rightarrow> call \<times> reply result \<Rightarrow> string" where
  "entry_of str (c, Inr (Num res)) =
     (case operands c of
        Some (a, b) \<Rightarrow>
          (case f_string str a (symbol c) b res of Inl e \<Rightarrow> [] | Inr entry \<Rightarrow> entry)
      | None \<Rightarrow> [])"
| "entry_of str (c, r) = []"


section \<open>numpy\<close>


fun np_array_float :: "(real \<Rightarrow> real) \<Rightarrow> number list \<Rightarrow> float64 list result" where
  "np_array_float rnd [] = Inr []"
| "np_array_float rnd (x # xs) =
     bind_result (to_float rnd x) (\<lambda>v.
     bind_result (np_array_float rnd xs) (\<lambda>vs. Inr (v # vs)))"






definition np_square :: "(real \<Rightarrow> real) \<Rightarrow> float64 list \<Rightarrow> float64 list" where
  "np_square rnd arr = map (\<lambda>x. fmul rnd x x) arr"

definition np_abs :: "float64 list \<Rightarrow> float64 list" where
  "np_abs arr = map fabs arr"

definition np_sqrt :: "(real \<Rightarrow> real) \<Rightarrow> float64 list \<Rightarrow> float64 list" where
  "np_sqrt rnd arr = map (fsqrt rnd) arr"

definition np_zeros_like :: "float64 list \<Rightarrow> float64 list" where
  "np_zeros_like arr = replicate (length arr) (Finite 0)"

definition np_subtract :: "(real \<Rightarrow> real) \<Rightarrow> float64 list \<Rightarrow> float64 \<Rightarrow> float64 list" where
  "np_subtract rnd arr c = map (\<lambda>x. fsub rnd x c) arr"

definition np_divide :: "(real \<Rightarrow> real) \<Rightarrow> float64 list \<Rightarrow> float64 \<Rightarrow> float64 list" where
  "np_divide rnd arr d = map (\<lambda>x. fdiv rnd x d) arr"

definition fmin :: "float64 \<Rightarrow> float64 \<Rightarrow> float64" where
  "fmin x acc = (if is_nan x \<or> is_nan acc then NaN else if flt x acc then x else acc)"

definition fmax :: "float64 \<Rightarrow> float64 \<Rightarrow> float64" where
  "fmax x acc = (if is_nan x \<or> is_nan acc then NaN else if flt acc x then x else acc)"

fun np_min :: "float64 list \<Rightarrow> float64 result" where
  "np_min [] =
     Inl (ValueError ''zero-size array to reduction operation minimum which has no identity'')"
| "np_min (x # xs) = Inr (fold fmin xs x)"

fun np_max :: "float64 list \<Rightarrow> float64 result" where
  "np_max [] =
     Inl (ValueError ''zero-size array to reduction operation maximum which has no identity'')"
| "np_max (x # xs) = Inr (fold fmax xs x)"





section \<open>DataProcessor\<close>

text \<open>
  The object's only attribute is the flag \<open>normalize\<close>, here \<open>normalize_flag\<close>. The
  method \<open>_normalize\<close> is \<open>normalize_arr\<close>. No built-in operation reads \<open>**kwargs\<close>, so
  \<open>process\<close> has no such argument. The threshold of \<open>filter_outliers\<close> is a float.
\<close>

record DataProcessor =
  normalize_flag :: bool

definition normalize_arr :: "(real \<Rightarrow> real) \<Rightarrow> float64 list \<Rightarrow> float64 list result" where
  "normalize_arr rnd arr =
     bind_result (np_min arr) (\<lambda>min_val.
     bind_result (np_max arr) (\<lambda>max_val.
       if feq max_val min_val then Inr (np_zeros_like arr)
       else Inr (np_divide rnd (np_subtract rnd arr min_val) (fsub rnd max_val min_val))))"

text \<open>A ghost of \<open>_normalize\<close>: the divisor of the division it makes, and \<open>None\<close> when
  it returns without dividing.\<close>

definition normalize_divisor :: "(real \<Rightarrow> real) \<Rightarrow> float64 list \<Rightarrow> float64 option result" where
  "normalize_divisor rnd arr =
     bind_result (np_min arr) (\<lambda>min_val.
     bind_result (np_max arr) (\<lambda>max_val.
       if feq max_val min_val then Inr None
       else Inr (Some (fsub rnd max_val min_val))))"

definition process ::
  "(real \<Rightarrow> real) \<Rightarrow> DataProcessor \<Rightarrow> number list \<Rightarrow> string \<Rightarrow> float64 list result" where
  "process rnd self data operation =
     (if data = [] then Inl (ValueError ''Data cannot be empty'')
      else
        bind_result (np_array_float rnd data) (\<lambda>arr.
        bind_result
          (if operation = ''identity'' then Inr arr
           else if operation = ''square'' then Inr (np_square rnd arr)
           else if operation = ''sqrt'' then Inr (np_sqrt rnd (np_abs arr))
           else if operation = ''normalize'' then normalize_arr rnd arr
           else Inl (ValueError (''Invalid operation: '' @ operation)))
          (\<lambda>result.
             if normalize_flag self \<and> operation \<noteq> ''normalize''
             then normalize_arr rnd result
             else Inr result)))"

text \<open>
  The same method with a ghost counter: the number paired with the result counts the
  calls of \<open>_normalize\<close> made on the way.
\<close>

definition process_counted ::
  "(real \<Rightarrow> real) \<Rightarrow> DataProcessor \<Rightarrow> number list \<Rightarrow> string \<Rightarrow> (float64 list \<times> nat) result" where
  "process_counted rnd self data operation =
     (if data = [] then Inl (ValueError ''Data cannot be empty'')
      else
        bind_result (np_array_float rnd data) (\<lambda>arr.
        bind_result
          (if operation = ''identity'' then Inr (arr, 0)
           else if operation = ''square'' then Inr (np_square rnd arr, 0)
           else if operation = ''sqrt'' then Inr (np_sqrt rnd (np_abs arr), 0)
           else if operation = ''normalize''
                then map_sum id (\<lambda>r. (r, 1)) (normalize_arr rnd arr)
           else Inl (ValueError (''Invalid operation: '' @ operation)))
          (\<lambda>(result, n).
             if normalize_flag self \<and> operation \<noteq> ''normalize''
             then map_sum id (\<lambda>r. (r, Suc n)) (normalize_arr rnd result)
             else Inr (result, n))))"



text \<open>The spec's names for the three errors, as the exceptions the code raises.\<close>

definition DivisionByZero :: failure where
  "DivisionByZero = ValueError ''Cannot divide by zero''"

definition EmptyInput :: failure where
  "EmptyInput = ValueError ''Data cannot be empty''"

definition InvalidOperation :: "string \<Rightarrow> failure" where
  "InvalidOperation operation = ValueError (''Invalid operation: '' @ operation)"

definition recognized :: "string \<Rightarrow> bool" where
  "recognized operation = (operation \<in> set [''identity'', ''square'', ''sqrt'', ''normalize''])"

text \<open>The numbers that \<open>np.array(data, dtype=float)\<close> converts: every float, and the
  ints below the overflow bound in magnitude.\<close>

fun fits_float :: "number \<Rightarrow> bool" where
  "fits_float (PyInt i) = (\<bar>real_of_int i\<bar> < overflow_bound)"
| "fits_float (PyFloat x) = True"

text \<open>The double a number is converted to, when the conversion does not raise.\<close>

fun converted :: "(real \<Rightarrow> real) \<Rightarrow> number \<Rightarrow> float64" where
  "converted rnd (PyInt i) = Finite (rnd (real_of_int i))"
| "converted rnd (PyFloat x) = x"


section \<open>Facts about floats and numbers\<close>

lemma overflow_bound_le: "overflow_bound \<le> 2 ^ 1024"
  by (simp add: overflow_bound_def)

lemma ten_400_overflows: "overflow_bound \<le> \<bar>real_of_int (10 ^ 400)\<bar>"
proof -
  have "(2::real) ^ 1024 \<le> 2 ^ 1300" by (rule power_increasing) simp_all
  also have "\<dots> = ((2::real) ^ 13) ^ 100" by (simp only: power_mult [symmetric]) simp
  also have "\<dots> \<le> ((10::real) ^ 4) ^ 100" by (rule power_mono) simp_all
  also have "\<dots> = (10::real) ^ 400" by (simp only: power_mult [symmetric]) simp
  finally have "(2::real) ^ 1024 \<le> 10 ^ 400" .
  with overflow_bound_le have "overflow_bound \<le> (10::real) ^ 400" by (rule order_trans)
  then have "overflow_bound \<le> \<bar>(10::real) ^ 400\<bar>" by (simp only: power_abs [symmetric] abs_numeral)
  then show ?thesis by (simp only: of_int_power of_int_numeral)
qed

lemma int64_below_bound:
  assumes "\<bar>r\<bar> \<le> 2 ^ 63"
  shows "\<bar>r :: real\<bar> < overflow_bound"
proof -
  have a: "(2::real) ^ 63 < 2 ^ 970" by (rule power_strict_increasing) simp_all
  have "(2::real) ^ 970 * 2 \<le> 2 ^ 1024"
  proof -
    have "(2::real) ^ 970 * 2 = 2 ^ 971" by simp
    also have "\<dots> \<le> 2 ^ 1024" by (rule power_increasing) simp_all
    finally show ?thesis .
  qed
  then have "(2::real) ^ 970 \<le> overflow_bound" by (simp add: overflow_bound_def)
  with a assms show ?thesis by linarith
qed

lemma float_of_int_small:
  "\<bar>real_of_int i\<bar> \<le> 2 ^ 63 \<Longrightarrow> float_of_int rnd i = Inr (Finite (rnd (real_of_int i)))"
  using int64_below_bound [of "real_of_int i"] by (simp add: float_of_int_def)

lemma fl_small: "\<bar>r\<bar> \<le> 2 ^ 63 \<Longrightarrow> fl rnd r = Finite (rnd r)"
  using int64_below_bound [of r] by (simp add: fl_def)

section \<open>Facts about the Calculator\<close>

lemma run_snoc:
  "run rnd str s (cs @ [c]) =
     (let (s', rs) = run rnd str s cs; (s'', r) = step rnd str s' c in (s'', rs @ [r]))"
  by (induction cs arbitrary: s) (simp_all add: split_beta Let_def)

lemma length_run: "length (snd (run rnd str s cs)) = length cs"
  by (induction cs arbitrary: s) (simp_all add: split_beta Let_def)

lemma since_last_clear_snoc:
  "since_last_clear (crs @ [cr]) =
     (if fst cr = ClearHistory then [] else since_last_clear crs @ [cr])"
  by (simp add: since_last_clear_def)

text \<open>One call: \<open>clear_history\<close> empties the history, a successful arithmetic call
  appends its entry, and every other call leaves the history as it was.\<close>

lemma step_history:
  "history (fst (step rnd str s c)) =
     (if c = ClearHistory then []
      else if successful (c, snd (step rnd str s c))
           then history s @ [entry_of str (c, snd (step rnd str s c))]
           else history s)"
  by (cases c)
     (simp_all add: add_def subtract_def multiply_def divide_calc_def get_history_def
        clear_history_def successful_def Let_def split: sum.splits)

lemma run_history:
  "history (fst (run rnd str s cs)) =
     (if ClearHistory \<in> set cs then [] else history s) @
     map (entry_of str)
       (filter successful (since_last_clear (zip cs (snd (run rnd str s cs)))))"
proof (induction cs rule: rev_induct)
  case Nil
  show ?case by (simp add: since_last_clear_def)
next
  case (snoc c cs)
  obtain s' rs where r: "run rnd str s cs = (s', rs)" by (cases "run rnd str s cs")
  obtain s'' r where st: "step rnd str s' c = (s'', r)" by (cases "step rnd str s' c")
  have len: "length rs = length cs" using length_run [of rnd str s cs] r by simp
  have z: "zip (cs @ [c]) (rs @ [r]) = zip cs rs @ [(c, r)]" using len by simp
  have h: "history s'' = (if c = ClearHistory then []
      else if successful (c, r) then history s' @ [entry_of str (c, r)] else history s')"
    using step_history [of rnd str s' c] st by simp
  from snoc r have ih: "history s' = (if ClearHistory \<in> set cs then [] else history s) @
     map (entry_of str) (filter successful (since_last_clear (zip cs rs)))" by simp
  show ?case
    by (simp add: run_snoc r st z since_last_clear_snoc h ih)
qed

section \<open>Facts about numpy and the DataProcessor\<close>

lemma fl_not_nan: "\<not> is_nan (fl rnd r)"
  by (simp add: fl_def)

lemma fsqrt_fabs_not_nan: "\<not> is_nan x \<Longrightarrow> \<not> is_nan (fsqrt rnd (fabs x))"
  by (cases x) (simp_all add: fl_not_nan)

lemma fmul_self_not_nan: "\<not> is_nan x \<Longrightarrow> \<not> is_nan (fmul rnd x x)"
  by (cases x) (simp_all add: fmul_def fl_not_nan inf_of_def)


lemma np_array_float_fits:
  "list_all fits_float data \<Longrightarrow> np_array_float rnd data = Inr (map (converted rnd) data)"
proof (induction data)
  case Nil
  show ?case by simp
next
  case (Cons x xs)
  then show ?case by (cases x) (simp_all add: bind_result_def float_of_int_def)
qed

lemma np_array_float_overflow:
  "\<not> list_all fits_float data \<Longrightarrow> np_array_float rnd data = Inl OverflowError"
proof (induction data)
  case Nil
  then show ?case by simp
next
  case (Cons x xs)
  then show ?case
    by (cases x; cases "list_all fits_float xs")
       (simp_all add: bind_result_def float_of_int_def np_array_float_fits)
qed





lemma normalize_arr_returns:
  "arr \<noteq> [] \<Longrightarrow> \<exists>r. normalize_arr rnd arr = Inr r \<and> length r = length arr"
  by (cases arr)
     (simp_all add: normalize_arr_def bind_result_def np_zeros_like_def np_divide_def
        np_subtract_def)

text \<open>The order of the values that are not \<open>nan\<close> is linear.\<close>

lemma fle_trans:
  "\<not> is_nan a \<Longrightarrow> \<not> is_nan b \<Longrightarrow> \<not> is_nan c \<Longrightarrow> \<not> flt b a \<Longrightarrow> \<not> flt c b \<Longrightarrow> \<not> flt c a"
  by (cases a; cases b; cases c) simp_all

lemma fle_antisym: "\<not> is_nan a \<Longrightarrow> \<not> is_nan b \<Longrightarrow> \<not> flt a b \<Longrightarrow> \<not> flt b a \<Longrightarrow> a = b"
  by (cases a; cases b) simp_all

lemma flt_irrefl: "\<not> flt a a"
  by (cases a) simp_all

lemma fold_fmin_nan:
  "is_nan (fold fmin xs a) \<longleftrightarrow> is_nan a \<or> (\<exists>x\<in>set xs. is_nan x)"
  by (induction xs arbitrary: a) (auto simp add: fmin_def)

lemma fold_fmax_nan:
  "is_nan (fold fmax xs a) \<longleftrightarrow> is_nan a \<or> (\<exists>x\<in>set xs. is_nan x)"
  by (induction xs arbitrary: a) (auto simp add: fmax_def)

lemma fold_fmin_lower:
  "\<not> is_nan (fold fmin xs a) \<Longrightarrow> y \<in> set (a # xs) \<Longrightarrow> \<not> flt y (fold fmin xs a)"
proof (induction xs arbitrary: a y)
  case Nil
  then show ?case by (simp add: flt_irrefl)
next
  case (Cons x xs)
  let ?m = "fmin x a"
  let ?r = "fold fmin xs ?m"
  from Cons.prems(1) have r: "\<not> is_nan ?r" by simp
  then have nn: "\<not> is_nan ?m" "\<forall>z\<in>set xs. \<not> is_nan z"
    by (simp_all add: fold_fmin_nan)
  then have xa: "\<not> is_nan x" "\<not> is_nan a" by (auto simp add: fmin_def split: if_splits)
  have m: "\<not> flt ?m ?r" using Cons.IH [OF r] by simp
  have mx: "\<not> flt x ?m" "\<not> flt a ?m"
    using xa by (cases x; cases a; simp add: fmin_def)+
  from Cons.prems(2) consider "y = a" | "y = x" | "y \<in> set xs" by auto
  then show ?case
  proof cases
    case 1
    then show ?thesis using fle_trans [OF r nn(1) xa(2) m mx(2)] by simp
  next
    case 2
    then show ?thesis using fle_trans [OF r nn(1) xa(1) m mx(1)] by simp
  next
    case 3
    then show ?thesis using Cons.IH [OF r] by simp
  qed
qed

lemma fold_fmax_upper:
  "\<not> is_nan (fold fmax xs a) \<Longrightarrow> y \<in> set (a # xs) \<Longrightarrow> \<not> flt (fold fmax xs a) y"
proof (induction xs arbitrary: a y)
  case Nil
  then show ?case by (simp add: flt_irrefl)
next
  case (Cons x xs)
  let ?m = "fmax x a"
  let ?r = "fold fmax xs ?m"
  from Cons.prems(1) have r: "\<not> is_nan ?r" by simp
  then have nn: "\<not> is_nan ?m" "\<forall>z\<in>set xs. \<not> is_nan z"
    by (simp_all add: fold_fmax_nan)
  then have xa: "\<not> is_nan x" "\<not> is_nan a" by (auto simp add: fmax_def split: if_splits)
  have m: "\<not> flt ?r ?m" using Cons.IH [OF r] by simp
  have mx: "\<not> flt ?m x" "\<not> flt ?m a"
    using xa by (cases x; cases a; simp add: fmax_def)+
  from Cons.prems(2) consider "y = a" | "y = x" | "y \<in> set xs" by auto
  then show ?case
  proof cases
    case 1
    then show ?thesis using fle_trans [OF xa(2) nn(1) r mx(2) m] by simp
  next
    case 2
    then show ?thesis using fle_trans [OF xa(1) nn(1) r mx(1) m] by simp
  next
    case 3
    then show ?thesis using Cons.IH [OF r] by simp
  qed
qed

text \<open>An array whose maximum \<open>==\<close> its minimum holds one value, which is not \<open>nan\<close>.\<close>

lemma min_eq_max_constant:
  assumes "np_min arr = Inr lo" "np_max arr = Inr hi" "feq hi lo"
  shows "\<not> is_nan lo \<and> arr = replicate (length arr) lo"
proof (cases arr)
  case Nil
  with assms(1) show ?thesis by simp
next
  case (Cons a xs)
  with assms have lo: "lo = fold fmin xs a" and hi: "hi = fold fmax xs a" by simp_all
  from assms(3) have nn: "\<not> is_nan lo" "\<not> is_nan hi" and eq: "hi = lo"
    by (simp_all add: feq_def)
  have "\<forall>y\<in>set arr. y = lo"
  proof
    fix y assume y: "y \<in> set arr"
    then have ys: "y \<in> set (a # xs)" using Cons by simp
    have yn: "\<not> is_nan y"
      using nn(1) ys by (auto simp add: lo fold_fmin_nan)
    have "\<not> flt y lo" using fold_fmin_lower [of xs a y] nn(1) ys lo by simp
    moreover have "\<not> flt lo y" using fold_fmax_upper [of xs a y] nn(2) ys hi eq by simp
    ultimately show "y = lo" using fle_antisym [OF yn nn(1)] by simp
  qed
  then have "arr = replicate (length arr) lo" by (simp add: replicate_length_same)
  with nn(1) show ?thesis by simp
qed

lemma fold_fmin_replicate: "\<not> is_nan c \<Longrightarrow> (fmin c ^^ n) c = c"
  by (induction n) (simp_all add: fmin_def flt_irrefl)

lemma fold_fmax_replicate: "\<not> is_nan c \<Longrightarrow> (fmax c ^^ n) c = c"
  by (induction n) (simp_all add: fmax_def flt_irrefl)

lemma normalize_arr_constant:
  assumes "0 < n" "\<not> is_nan c"
  shows "normalize_arr rnd (replicate n c) = Inr (replicate n (Finite 0))"
    and "normalize_divisor rnd (replicate n c) = Inr None"
proof -
  obtain k where k: "n = Suc k" using assms(1) by (cases n) auto
  show "normalize_arr rnd (replicate n c) = Inr (replicate n (Finite 0))"
    using assms(2)
    by (simp add: k normalize_arr_def bind_result_def fold_fmin_replicate fold_fmax_replicate
          feq_def np_zeros_like_def)
  show "normalize_divisor rnd (replicate n c) = Inr None"
    using assms(2)
    by (simp add: k normalize_divisor_def bind_result_def fold_fmin_replicate
          fold_fmax_replicate feq_def)
qed

text \<open>The ghost follows \<open>_normalize\<close>: without a divisor the result is the zeros, with
  the divisor \<open>d\<close> it is the quotients by \<open>d\<close>.\<close>

lemma normalize_divisor_arr:
  "(normalize_divisor rnd a = Inr None \<longrightarrow> normalize_arr rnd a = Inr (np_zeros_like a)) \<and>
   (\<forall>d. normalize_divisor rnd a = Inr (Some d) \<longrightarrow>
      (\<exists>lo. np_min a = Inr lo \<and>
            normalize_arr rnd a = Inr (np_divide rnd (np_subtract rnd a lo) d)))"
  by (cases a) (auto simp add: normalize_divisor_def normalize_arr_def bind_result_def)

lemma process_counted_fst:
  "map_sum id fst (process_counted rnd self data operation) = process rnd self data operation"
proof (cases "np_array_float rnd data")
  case (Inl e)
  then show ?thesis by (simp add: process_counted_def process_def bind_result_def)
next
  case (Inr arr)
  show ?thesis
    by (cases "normalize_arr rnd arr"; cases "normalize_arr rnd (np_square rnd arr)";
        cases "normalize_arr rnd (np_sqrt rnd (np_abs arr))")
       (simp_all add: Inr process_counted_def process_def bind_result_def)
qed



lemma process_fits:
  assumes "data \<noteq> []" "list_all fits_float data"
  shows "process rnd self data operation =
     bind_result
       (if operation = ''identity'' then Inr (map (converted rnd) data)
        else if operation = ''square'' then Inr (np_square rnd (map (converted rnd) data))
        else if operation = ''sqrt'' then Inr (np_sqrt rnd (np_abs (map (converted rnd) data)))
        else if operation = ''normalize'' then normalize_arr rnd (map (converted rnd) data)
        else Inl (InvalidOperation operation))
       (\<lambda>result.
          if normalize_flag self \<and> operation \<noteq> ''normalize''
          then normalize_arr rnd result else Inr result)"
  using assms
  by (simp add: process_def np_array_float_fits bind_result_def InvalidOperation_def)



section \<open>Calculator: division\<close>

text \<open>
  Claim C7. For all numbers \<open>a\<close> and \<open>b\<close> with \<open>b == 0\<close>, \<open>Calculator.divide(a, b)\<close>
  raises DivisionByZero and returns the object as it was: the history is unchanged and
  no entry is appended.
\<close>

theorem divide_by_zero_raises:
  "py_eq_zero b \<Longrightarrow> divide_calc rnd str self a b = (self, Inl DivisionByZero)"
  by (simp add: divide_calc_def DivisionByZero_def)

theorem divide_by_zero_raises_witness:
  "py_eq_zero (PyFloat (Finite 0)) \<and>
   divide_calc id (\<lambda>n. Inr ''n'') \<lparr>history = [''n + n = n'']\<rparr> (PyInt 5) (PyFloat (Finite 0)) =
     (\<lparr>history = [''n + n = n'']\<rparr>, Inl (ValueError ''Cannot divide by zero''))"
proof -
  have z: "py_eq_zero (PyFloat (Finite 0))" by simp
  show ?thesis
    using z divide_by_zero_raises [OF z, of id "\<lambda>n. Inr ''n''" "\<lparr>history = [''n + n = n'']\<rparr>" "PyInt 5"]
    by (simp add: DivisionByZero_def)
qed




section \<open>Calculator: the history invariant\<close>

text \<open>
  Claim C9. After any list of calls on a fresh calculator, the history holds the entries
  of exactly the successful arithmetic calls made since the last \<open>clear_history\<close> (or
  since construction), in call order, so its length is their number. A call other than
  \<open>clear_history\<close> appends one entry when it is a successful arithmetic call and leaves
  the history as it was otherwise; \<open>clear_history\<close> empties it.
\<close>

theorem history_invariant:
  "(let (s, rs) = run rnd str init calls;
        counted = filter successful (since_last_clear (zip calls rs))
    in history s = map (entry_of str) counted \<and> length (history s) = length counted) \<and>
   (\<forall>s c. c \<noteq> ClearHistory \<longrightarrow>
      history (fst (step rnd str s c)) =
        (if successful (c, snd (step rnd str s c))
         then history s @ [entry_of str (c, snd (step rnd str s c))]
         else history s)) \<and>
   (\<forall>s. history (fst (step rnd str s ClearHistory)) = [])"
proof -
  have "history (fst (run rnd str init calls)) =
     map (entry_of str)
       (filter successful (since_last_clear (zip calls (snd (run rnd str init calls)))))"
    using run_history [of rnd str init calls] by (simp add: init_def)
  then show ?thesis
    by (simp add: split_beta Let_def step_history clear_history_def)
qed

theorem history_invariant_witness:
  "history (fst (run id (\<lambda>n. Inr (case n of PyInt i \<Rightarrow> ''i'' | PyFloat x \<Rightarrow> ''f'')) init
      [Add (PyInt 2) (PyInt 3), ClearHistory, Divide (PyInt 1) (PyInt 0),
       Multiply (PyInt 4) (PyFloat (Finite 5)), GetHistory, Divide (PyInt 6) (PyInt 2)])) =
     [''i * f = f'', ''i / i = f''] \<and>
   Divide (PyInt 1) (PyInt 0) \<noteq> ClearHistory \<and>
   history (fst (step id (\<lambda>n. Inr (case n of PyInt i \<Rightarrow> ''i'' | PyFloat x \<Rightarrow> ''f''))
      \<lparr>history = [''i + i = i'']\<rparr> (Divide (PyInt 1) (PyInt 0)))) = [''i + i = i'']"
proof -
  have a: "float_of_int id 4 = Inr (Finite 4)"
    using float_of_int_small [of 4 id] by simp
  have b: "\<not> overflow_bound \<le> 3"
    using int64_below_bound [of 3] by simp
  have c: "fl id 20 = Finite 20"
    using fl_small [of 20 id] by simp
  show ?thesis
    using history_invariant [of id "\<lambda>n. Inr (case n of PyInt i \<Rightarrow> ''i'' | PyFloat x \<Rightarrow> ''f'')"
      "[Add (PyInt 2) (PyInt 3), ClearHistory, Divide (PyInt 1) (PyInt 0),
       Multiply (PyInt 4) (PyFloat (Finite 5)), GetHistory, Divide (PyInt 6) (PyInt 2)]"]
    by (simp add: init_def add_def subtract_def multiply_def divide_calc_def get_history_def
        clear_history_def successful_def Let_def since_last_clear_def bind_result_def
        f_string_def fmul_def a b c)
qed

section \<open>DataProcessor: errors\<close>

text \<open>
  Claim C10. On empty data \<open>process\<close> raises EmptyInput whatever the operation string
  is, recognized or not, and EmptyInput is never the InvalidOperation error: the
  emptiness check comes first.
\<close>

theorem empty_data_precedes_operation:
  "process rnd self [] operation = Inl EmptyInput \<and> EmptyInput \<noteq> InvalidOperation operation"
  by (simp add: process_def EmptyInput_def InvalidOperation_def)

theorem empty_data_precedes_operation_witness:
  "process id \<lparr>normalize_flag = True\<rparr> [] ''bogus'' = Inl (ValueError ''Data cannot be empty'')"
  using empty_data_precedes_operation [of id "\<lparr>normalize_flag = True\<rparr>" "''bogus''"]
  by (simp add: EmptyInput_def)

section \<open>DataProcessor: process\<close>

text \<open>
  Claim C4. For non-empty data whose ints are all below the overflow bound and the flag
  \<open>normalize\<close> false: \<open>process(data, "identity")\<close> returns the elements converted to
  float, an int rounded and a float unchanged; \<open>"square"\<close> returns each \<open>x * x\<close> and
  \<open>"sqrt"\<close> each \<open>sqrt \<bar>x\<bar>\<close>, in float arithmetic: of a finite \<open>x\<close> the rounded square
  and the rounded root. The root of \<open>\<bar>x\<bar>\<close> is \<open>nan\<close> only when \<open>x\<close> is. Each output has
  the length and the order of the input.

  The counterexample after the witness: \<open>process([10 ** 400], "identity")\<close> raises
  OverflowError.
\<close>

theorem process_elementwise:
  assumes "data \<noteq> []" and "\<not> normalize_flag self" and "list_all fits_float data"
  shows "process rnd self data ''identity'' = Inr (map (converted rnd) data) \<and>
         process rnd self data ''square'' =
           Inr (map (\<lambda>x. fmul rnd (converted rnd x) (converted rnd x)) data) \<and>
         process rnd self data ''sqrt'' =
           Inr (map (\<lambda>x. fsqrt rnd (fabs (converted rnd x))) data) \<and>
         (\<forall>x r. converted rnd x = Finite r \<longrightarrow>
            fmul rnd (converted rnd x) (converted rnd x) = fl rnd (r ^ 2) \<and>
            fsqrt rnd (fabs (converted rnd x)) = fl rnd (sqrt \<bar>r\<bar>)) \<and>
         (\<forall>x. \<not> is_nan (converted rnd x) \<longrightarrow>
            \<not> is_nan (fsqrt rnd (fabs (converted rnd x)))) \<and>
         (\<forall>operation \<in> {''identity'', ''square'', ''sqrt''}.
            \<exists>r. process rnd self data operation = Inr r \<and> length r = length data)"
proof -
  have ops: "process rnd self data ''identity'' = Inr (map (converted rnd) data)"
    "process rnd self data ''square'' =
       Inr (map (\<lambda>x. fmul rnd (converted rnd x) (converted rnd x)) data)"
    "process rnd self data ''sqrt'' =
       Inr (map (\<lambda>x. fsqrt rnd (fabs (converted rnd x))) data)"
    using assms(2)
    by (simp_all add: process_fits [OF assms(1,3)] bind_result_def np_square_def np_sqrt_def
          np_abs_def comp_def)
  have vals: "\<forall>x r. converted rnd x = Finite r \<longrightarrow>
            fmul rnd (converted rnd x) (converted rnd x) = fl rnd (r ^ 2) \<and>
            fsqrt rnd (fabs (converted rnd x)) = fl rnd (sqrt \<bar>r\<bar>)"
    by (simp add: fmul_def power2_eq_square)
  show ?thesis using ops vals fsqrt_fabs_not_nan by simp
qed

theorem process_elementwise_witness:
  "list_all fits_float [PyInt (- 4), PyFloat (Finite 1)] \<and>
   process id \<lparr>normalize_flag = False\<rparr> [PyInt (- 4), PyFloat (Finite 1)] ''identity'' =
     Inr [Finite (- 4), Finite 1] \<and>
   process id \<lparr>normalize_flag = False\<rparr> [PyInt (- 4), PyFloat (Finite 1)] ''square'' =
     Inr [Finite 16, Finite 1] \<and>
   process id \<lparr>normalize_flag = False\<rparr> [PyInt (- 4), PyFloat (Finite 1)] ''sqrt'' =
     Inr [Finite 2, Finite 1]"
proof -
  have f: "list_all fits_float [PyInt (- 4), PyFloat (Finite 1)]"
    using int64_below_bound [of "- 4"] by simp
  have v: "fl id 16 = Finite 16" "fl id 1 = Finite 1" "fl id 2 = Finite 2"
    using fl_small [of 16 id] fl_small [of 1 id] fl_small [of 2 id] by simp_all
  show ?thesis
    using f process_elementwise [OF _ _ f, of "\<lparr>normalize_flag = False\<rparr>" id]
    by (simp add: fmul_def v)
qed

theorem process_overflow_counterexample:
  "process id \<lparr>normalize_flag = False\<rparr> [PyInt (10 ^ 400)] ''identity'' = Inl OverflowError"
  using ten_400_overflows
  by (simp add: process_def bind_result_def float_of_int_def)

text \<open>
  Claim C2. For non-empty data whose ints are all below the overflow bound: with the flag
  \<open>normalize\<close> true and an operation among identity, square and sqrt, \<open>process\<close> returns
  the normalize transform of what the operation alone returns; with the operation
  \<open>"normalize"\<close> it returns the normalize transform of the converted data whatever the
  flag is. In both cases \<open>_normalize\<close> is called exactly once, as the ghost counter of
  \<open>process_counted\<close> shows, and \<open>process_counted\<close> returns what \<open>process\<close> returns.

  The last two lines of the witness: on the doubles \<open>-2 ^ 1023\<close> and \<open>2 ^ 1023\<close> one
  normalize transform gives \<open>[0.0, nan]\<close>, which \<open>process\<close> returns, and a second one
  would give \<open>[nan, nan]\<close>. The counterexample after the witness: on \<open>[10 ** 400]\<close>
  \<open>process\<close> raises OverflowError before \<open>_normalize\<close> is called at all.
\<close>

theorem process_post_normalize:
  assumes "data \<noteq> []" and "list_all fits_float data"
  shows "(normalize_flag self \<and> operation \<in> {''identity'', ''square'', ''sqrt''} \<longrightarrow>
            process rnd self data operation =
              bind_result (process rnd (self\<lparr>normalize_flag := False\<rparr>) data operation)
                (normalize_arr rnd) \<and>
            (\<exists>r. process_counted rnd self data operation = Inr (r, 1))) \<and>
         process rnd self data ''normalize'' = normalize_arr rnd (map (converted rnd) data) \<and>
         (\<exists>r. process_counted rnd self data ''normalize'' = Inr (r, 1)) \<and>
         map_sum id fst (process_counted rnd self data operation) =
           process rnd self data operation"
proof -
  let ?arr = "map (converted rnd) data"
  have ne: "?arr \<noteq> []" "np_square rnd ?arr \<noteq> []" "np_sqrt rnd (np_abs ?arr) \<noteq> []"
    using assms(1) by (simp_all add: np_square_def np_sqrt_def np_abs_def)
  obtain r1 where r1: "normalize_arr rnd ?arr = Inr r1"
    using normalize_arr_returns [OF ne(1), of rnd] by auto
  obtain r2 where r2: "normalize_arr rnd (np_square rnd ?arr) = Inr r2"
    using normalize_arr_returns [OF ne(2), of rnd] by auto
  obtain r3 where r3: "normalize_arr rnd (np_sqrt rnd (np_abs ?arr)) = Inr r3"
    using normalize_arr_returns [OF ne(3), of rnd] by auto
  have a: "normalize_flag self \<and> operation \<in> {''identity'', ''square'', ''sqrt''} \<longrightarrow>
            process rnd self data operation =
              bind_result (process rnd (self\<lparr>normalize_flag := False\<rparr>) data operation)
                (normalize_arr rnd) \<and>
            (\<exists>r. process_counted rnd self data operation = Inr (r, 1))"
    using assms r1 r2 r3
    by (auto simp add: process_fits process_counted_def np_array_float_fits bind_result_def)
  have b: "process rnd self data ''normalize'' = normalize_arr rnd ?arr"
    using r1 by (simp add: process_fits [OF assms] bind_result_def)
  have c: "\<exists>r. process_counted rnd self data ''normalize'' = Inr (r, 1)"
    using assms r1 by (simp add: process_counted_def np_array_float_fits bind_result_def)
  show ?thesis using a b c process_counted_fst by blast
qed

theorem process_post_normalize_witness:
  "list_all fits_float [PyInt 10, PyInt 20, PyInt 30] \<and>
   process id \<lparr>normalize_flag = True\<rparr> [PyInt 10, PyInt 20, PyInt 30] ''square'' =
     Inr [Finite 0, Finite (3 / 8), Finite 1] \<and>
   process id \<lparr>normalize_flag = True\<rparr> [PyInt 0, PyInt 5, PyInt 10] ''normalize'' =
     Inr [Finite 0, Finite (1 / 2), Finite 1] \<and>
   process_counted id \<lparr>normalize_flag = True\<rparr> [PyInt 0, PyInt 5, PyInt 10] ''normalize'' =
     Inr ([Finite 0, Finite (1 / 2), Finite 1], 1) \<and>
   process id \<lparr>normalize_flag = True\<rparr>
     [PyFloat (Finite (- (2 ^ 1023))), PyFloat (Finite (2 ^ 1023))] ''normalize'' =
     Inr [Finite 0, NaN] \<and>
   normalize_arr id [Finite 0, NaN] = Inr [NaN, NaN]"
proof -
  have f: "list_all fits_float [PyInt 10, PyInt 20, PyInt 30]"
    "list_all fits_float [PyInt 0, PyInt 5, PyInt 10]"
    "list_all fits_float [PyFloat (Finite (- (2 ^ 1023))), PyFloat (Finite (2 ^ 1023))]"
    using int64_below_bound [of 10] int64_below_bound [of 20] int64_below_bound [of 30]
      int64_below_bound [of 0] int64_below_bound [of 5]
    by simp_all
  have v: "fl id 0 = Finite 0" "fl id 100 = Finite 100" "fl id 400 = Finite 400"
    "fl id 900 = Finite 900" "fl id 300 = Finite 300" "fl id 800 = Finite 800"
    "fl id 5 = Finite 5" "fl id 10 = Finite 10" "fl id 1 = Finite 1"
    "fl id (3 / 8) = Finite (3 / 8)" "fl id (1 / 2) = Finite (1 / 2)"
    using fl_small [of 0 id] fl_small [of 100 id] fl_small [of 400 id] fl_small [of 900 id]
      fl_small [of 300 id] fl_small [of 800 id] fl_small [of 5 id] fl_small [of 10 id]
      fl_small [of 1 id] fl_small [of "3 / 8" id] fl_small [of "1 / 2" id]
    by simp_all
  show ?thesis
    using f
      process_post_normalize [OF _ f(1), of "\<lparr>normalize_flag = True\<rparr>" "''square''" id]
      process_post_normalize [OF _ f(2), of "\<lparr>normalize_flag = True\<rparr>" "''normalize''" id]
      process_post_normalize [OF _ f(3), of "\<lparr>normalize_flag = True\<rparr>" "''normalize''" id]
    apply (simp add: process_def process_counted_def bind_result_def normalize_arr_def
        np_square_def np_divide_def np_subtract_def np_zeros_like_def fmin_def fmax_def
        fmul_def fsub_def fadd_def fdiv_def feq_def float_of_int_small v)
    apply (simp add: fl_def overflow_bound_def)
    done
qed

theorem process_counted_overflow_counterexample:
  "process_counted id \<lparr>normalize_flag = True\<rparr> [PyInt (10 ^ 400)] ''normalize'' =
     Inl OverflowError \<and>
   process id \<lparr>normalize_flag = True\<rparr> [PyInt (10 ^ 400)] ''normalize'' = Inl OverflowError"
  using ten_400_overflows
  by (simp add: process_def process_counted_def bind_result_def float_of_int_def)

text \<open>
  Claim C3. For non-empty data that converts to floats and whose maximum \<open>==\<close> its
  minimum, the normalize transform returns zeros of the same length, through
  \<open>operation="normalize"\<close> and through the flag with any recognized operation, and
  \<open>_normalize\<close> returns before its division: the ghost \<open>normalize_divisor\<close> is \<open>None\<close> on
  the converted data and on what any operation returns of it. On every array the ghost
  follows \<open>_normalize\<close>: \<open>None\<close> goes with the zeros, a divisor \<open>d\<close> with the quotients
  by \<open>d\<close>.

  The counterexample after the witness: the single-element data \<open>[10 ** 400]\<close> raises
  OverflowError, and the single-element data \<open>[nan]\<close> gives \<open>[nan]\<close>, since \<open>nan == nan\<close>
  is false.
\<close>

theorem normalize_constant_zeros:
  assumes "data \<noteq> []"
    and "np_array_float rnd data = Inr arr"
    and "np_min arr = Inr lo" and "np_max arr = Inr hi" and "feq hi lo"
  shows "normalize_arr rnd arr = Inr (replicate (length data) (Finite 0)) \<and>
         process rnd self data ''normalize'' = Inr (replicate (length data) (Finite 0)) \<and>
         (normalize_flag self \<and> recognized operation \<longrightarrow>
            process rnd self data operation = Inr (replicate (length data) (Finite 0))) \<and>
         normalize_divisor rnd arr = Inr None \<and>
         (\<forall>r. process rnd (self\<lparr>normalize_flag := False\<rparr>) data operation = Inr r \<longrightarrow>
            normalize_divisor rnd r = Inr None) \<and>
         (\<forall>a. (normalize_divisor rnd a = Inr None \<longrightarrow>
                 normalize_arr rnd a = Inr (np_zeros_like a)) \<and>
              (\<forall>d. normalize_divisor rnd a = Inr (Some d) \<longrightarrow>
                 (\<exists>m. np_min a = Inr m \<and>
                      normalize_arr rnd a = Inr (np_divide rnd (np_subtract rnd a m) d))))"
proof -
  let ?n = "length data"
  have n: "0 < ?n" using assms(1) by simp
  have fits: "list_all fits_float data"
    using assms(2) np_array_float_overflow [of data rnd] by auto
  then have arr: "arr = map (converted rnd) data"
    using assms(2) by (simp add: np_array_float_fits)
  then have len: "length arr = ?n" by simp
  from min_eq_max_constant [OF assms(3-5)] len
  have c: "\<not> is_nan lo" "arr = replicate ?n lo" by simp_all
  have conv: "map (converted rnd) data = replicate ?n lo" using arr c(2) by simp
  have sq: "np_square rnd (replicate ?n lo) = replicate ?n (fmul rnd lo lo)"
    by (simp add: np_square_def)
  have rt: "np_sqrt rnd (np_abs (replicate ?n lo)) = replicate ?n (fsqrt rnd (fabs lo))"
    by (simp add: np_sqrt_def np_abs_def)
  note nn = c(1) fmul_self_not_nan [OF c(1), of rnd] fsqrt_fabs_not_nan [OF c(1), of rnd]
  have z: "\<And>d. \<not> is_nan d \<Longrightarrow> normalize_arr rnd (replicate ?n d) = Inr (replicate ?n (Finite 0))"
    and dv: "\<And>d. \<not> is_nan d \<Longrightarrow> normalize_divisor rnd (replicate ?n d) = Inr None"
    using normalize_arr_constant [OF n] by simp_all
  have zero_nn: "\<not> is_nan (Finite 0)" by simp
  have a: "normalize_arr rnd arr = Inr (replicate ?n (Finite 0))"
    using z [OF c(1)] c(2) by simp
  have b: "process rnd self data ''normalize'' = Inr (replicate ?n (Finite 0))"
    by (simp add: process_fits [OF assms(1) fits] conv z [OF c(1)] bind_result_def)
  have d: "normalize_flag self \<and> recognized operation \<longrightarrow>
            process rnd self data operation = Inr (replicate ?n (Finite 0))"
    using nn
    by (auto simp add: process_fits [OF assms(1) fits] recognized_def conv sq rt z
          bind_result_def)
  have e: "normalize_divisor rnd arr = Inr None"
    using dv [OF c(1)] c(2) by simp
  have g: "\<forall>r. process rnd (self\<lparr>normalize_flag := False\<rparr>) data operation = Inr r \<longrightarrow>
            normalize_divisor rnd r = Inr None"
    using nn zero_nn
    by (auto simp add: process_fits [OF assms(1) fits] conv sq rt z dv bind_result_def
          split: if_splits)
  show ?thesis using a b d e g normalize_divisor_arr [of rnd] by blast
qed

theorem normalize_constant_zeros_witness:
  "np_array_float id [PyInt 5, PyFloat (Finite 5), PyInt 5] = Inr [Finite 5, Finite 5, Finite 5] \<and>
   np_min [Finite 5, Finite 5, Finite 5] = Inr (Finite 5) \<and>
   np_max [Finite 5, Finite 5, Finite 5] = Inr (Finite 5) \<and>
   feq (Finite 5) (Finite 5) \<and>
   process id \<lparr>normalize_flag = False\<rparr> [PyInt 5, PyFloat (Finite 5), PyInt 5] ''normalize'' =
     Inr [Finite 0, Finite 0, Finite 0] \<and>
   recognized ''square'' \<and>
   process id \<lparr>normalize_flag = True\<rparr> [PyInt 5, PyFloat (Finite 5), PyInt 5] ''square'' =
     Inr [Finite 0, Finite 0, Finite 0] \<and>
   normalize_divisor id [Finite 5, Finite 5, Finite 5] = Inr None"
proof -
  have a: "np_array_float id [PyInt 5, PyFloat (Finite 5), PyInt 5] =
      Inr [Finite 5, Finite 5, Finite 5]"
    using float_of_int_small [of 5 id] by (simp add: bind_result_def)
  have lo: "np_min [Finite 5, Finite 5, Finite 5] = Inr (Finite 5)"
    and hi: "np_max [Finite 5, Finite 5, Finite 5] = Inr (Finite 5)"
    by (simp_all add: fmin_def fmax_def)
  have e: "feq (Finite 5) (Finite 5)" by (simp add: feq_def)
  have r: "recognized ''square''" by (simp add: recognized_def)
  show ?thesis
    using a lo hi e r
      normalize_constant_zeros [OF _ a lo hi e, of "\<lparr>normalize_flag = False\<rparr>" "''square''"]
      normalize_constant_zeros [OF _ a lo hi e, of "\<lparr>normalize_flag = True\<rparr>" "''square''"]
    by (simp add: numeral_3_eq_3)
qed

theorem normalize_single_element_counterexample:
  "process id \<lparr>normalize_flag = False\<rparr> [PyInt (10 ^ 400)] ''normalize'' = Inl OverflowError \<and>
   process id \<lparr>normalize_flag = False\<rparr> [PyFloat NaN] ''normalize'' = Inr [NaN]"
  using ten_400_overflows
  by (simp add: process_def bind_result_def float_of_int_def normalize_arr_def feq_def
        np_divide_def np_subtract_def fsub_def fadd_def fdiv_def)

section \<open>DataProcessor: filter_outliers\<close>




section \<open>DataProcessor: which call raises\<close>




end
